theory Spec2Isabelle
  imports Complex_Main "HOL-Library.Sublist"
begin

section \<open>JavaScript values\<close>

text \<open>
  A JavaScript string is modelled as the list of its code points. The tokens the program
  searches for are all ASCII, so searching code points and searching UTF-16 code units
  find the same matches.
\<close>

type_synonym ustring = "nat list"

definition ustr :: "string \<Rightarrow> ustring" where
  "ustr s = map of_char s"

text \<open>
  A JavaScript number is modelled as an exact rational or \<open>NaN\<close>. Time values of dates
  are numbers too: \<open>new Date(s).getTime()\<close> is \<open>NaN\<close> for a string that does not parse
  (an Invalid Date). Arithmetic and comparisons follow ECMAScript on \<open>NaN\<close>: every
  operation with a \<open>NaN\<close> operand is \<open>NaN\<close>, every comparison with one is false.
  The rounding of doubles and the infinities are not modelled: time values are integers
  of milliseconds, and on them the operations below are exact or round to the same
  integer as the exact quotient does.
\<close>

datatype number = NaN | Num rat

fun num_add :: "number \<Rightarrow> number \<Rightarrow> number" where
  "num_add (Num a) (Num b) = Num (a + b)"
| "num_add _ _ = NaN"

fun num_sub :: "number \<Rightarrow> number \<Rightarrow> number" where
  "num_sub (Num a) (Num b) = Num (a - b)"
| "num_sub _ _ = NaN"

text \<open>Division is only ever by the non-zero constants 60000, 1000 and 60.\<close>

fun num_div :: "number \<Rightarrow> rat \<Rightarrow> number" where
  "num_div (Num a) k = Num (a / k)"
| "num_div NaN k = NaN"

fun num_lt :: "number \<Rightarrow> number \<Rightarrow> bool" where
  "num_lt (Num a) (Num b) = (a < b)"
| "num_lt _ _ = False"

fun num_gt :: "number \<Rightarrow> number \<Rightarrow> bool" where
  "num_gt (Num a) (Num b) = (a > b)"
| "num_gt _ _ = False"

fun num_ge :: "number \<Rightarrow> number \<Rightarrow> bool" where
  "num_ge (Num a) (Num b) = (a \<ge> b)"
| "num_ge _ _ = False"

fun num_le :: "number \<Rightarrow> number \<Rightarrow> bool" where
  "num_le (Num a) (Num b) = (a \<le> b)"
| "num_le _ _ = False"

text \<open>\<open>Math.round\<close> rounds to the nearest integer, a tie towards plus infinity.\<close>

fun Math_round :: "number \<Rightarrow> number" where
  "Math_round (Num a) = Num (of_int \<lfloor>a + 1 / 2\<rfloor>)"
| "Math_round NaN = NaN"

fun Math_max :: "number \<Rightarrow> number \<Rightarrow> number" where
  "Math_max (Num a) (Num b) = Num (max a b)"
| "Math_max _ _ = NaN"

text \<open>A running total that starts at 0 and adds the numbers from left to right.\<close>

definition num_sum :: "number list \<Rightarrow> number" where
  "num_sum xs = foldl num_add (Num 0) xs"

text \<open>Truthiness of an optional string: \<open>undefined\<close> and the empty string are falsy.\<close>

fun truthy :: "ustring option \<Rightarrow> bool" where
  "truthy None = False"
| "truthy (Some s) = (s \<noteq> [])"

text \<open>\<open>a || b\<close> on optional strings.\<close>

definition orElse :: "ustring option \<Rightarrow> ustring option \<Rightarrow> ustring option" where
  "orElse a b = (if truthy a then a else b)"

text \<open>\<open>a || d\<close> where \<open>d\<close> is a string.\<close>

definition orDefault :: "ustring option \<Rightarrow> ustring \<Rightarrow> ustring" where
  "orDefault a d = (case a of None \<Rightarrow> d | Some s \<Rightarrow> if s = [] then d else s)"

definition str_includes :: "ustring \<Rightarrow> ustring \<Rightarrow> bool" where
  "str_includes s t = sublist t s"

definition startsWith :: "ustring \<Rightarrow> ustring \<Rightarrow> bool" where
  "startsWith s t = prefix t s"

text \<open>
  \<open>String.prototype.trim\<close> removes white space and line terminators from both ends:
  TAB, LF, VT, FF, CR, SP, NBSP, the Unicode space separators, LS, PS and ZWNBSP.
\<close>

definition isWhiteSpace :: "nat \<Rightarrow> bool" where
  "isWhiteSpace c =
     (c = 9 \<or> c = 10 \<or> c = 11 \<or> c = 12 \<or> c = 13 \<or> c = 32 \<or> c = 160 \<or> c = 5760
      \<or> (8192 \<le> c \<and> c \<le> 8202) \<or> c = 8232 \<or> c = 8233 \<or> c = 8239 \<or> c = 8287
      \<or> c = 12288 \<or> c = 65279)"

definition trim :: "ustring \<Rightarrow> ustring" where
  "trim s = rev (dropWhile isWhiteSpace (rev (dropWhile isWhiteSpace s)))"

text \<open>
  The parts of the JavaScript runtime that the program calls and that are tables of the
  Unicode standard or depend on the host: the canonical decomposition and the canonical
  combining class of a code point (for \<open>normalize("NFD")\<close>), the upper-case mapping of a
  code point (\<open>toUpperCase\<close> maps each code point by it), \<open>toLowerCase\<close> (which looks at
  the context of a code point, so it is a function of the whole string), and the parser
  behind \<open>new Date(string)\<close>, giving the time value in milliseconds.
\<close>

record runtime =
  decompose :: "nat \<Rightarrow> nat list"
  combiningClass :: "nat \<Rightarrow> nat"
  upperMapping :: "nat \<Rightarrow> nat list"
  toLowerCase :: "ustring \<Rightarrow> ustring"
  newDate :: "ustring \<Rightarrow> number"

definition toUpperCase :: "runtime \<Rightarrow> ustring \<Rightarrow> ustring" where
  "toUpperCase rt s = concat (map (upperMapping rt) s)"

text \<open>
  \<open>Array.prototype.sort\<close> with a comparison function: \<open>x\<close> goes after \<open>y\<close> when
  \<open>cmp x y > 0\<close>; a \<open>NaN\<close> result counts as 0. The sort is stable. Where the comparison
  function is consistent every stable sort returns the same list, the one computed here
  by insertion. Where it is not (a \<open>NaN\<close> among the keys) ECMAScript leaves the order
  to the implementation, and this is one of the orders it allows.
\<close>

fun insert_by :: "('a \<Rightarrow> 'a \<Rightarrow> number) \<Rightarrow> 'a \<Rightarrow> 'a list \<Rightarrow> 'a list" where
  "insert_by cmp x [] = [x]"
| "insert_by cmp x (y # ys) =
     (if num_gt (cmp x y) (Num 0) then y # insert_by cmp x ys else x # y # ys)"

definition Array_sort :: "('a \<Rightarrow> 'a \<Rightarrow> number) \<Rightarrow> 'a list \<Rightarrow> 'a list" where
  "Array_sort cmp xs = foldr (insert_by cmp) xs []"

section \<open>Departures (transport API)\<close>

text \<open>
  The kinds of transport. A trip leg can be of any of the six; a departure is never a
  walk (\<open>mapTransportMode\<close> below has no such result).
\<close>

datatype kind = Walk | Metro | Train | Tram | Bus | Ship

record Departure =
  dep_type :: kind
  dep_line :: ustring
  dep_destination :: ustring
  scheduledTime :: number
  expectedTime :: number
  minutesUntil :: number
  isDelayed :: bool
  dep_platform :: "ustring option"
  isCancelled :: bool

text \<open>
  The raw records, typed as the casts of the source type them. A field that is absent, or
  that fails the source's \<open>typeof\<close> test, is \<open>None\<close>.
\<close>

record rawLine =
  designation :: "ustring option"
  transport_mode :: "ustring option"

record rawStopPoint =
  sp_designation :: "ustring option"

record rawDeparture =
  scheduled :: "ustring option"
  expected :: "ustring option"
  line :: "rawLine option"
  destination :: "ustring option"
  stop_point :: "rawStopPoint option"
  state :: "ustring option"

record departuresPayload =
  departures :: "rawDeparture list option"

definition mapTransportMode :: "runtime \<Rightarrow> ustring \<Rightarrow> kind" where
  "mapTransportMode rt mode =
     (let modeUpper = toUpperCase rt mode in
      if modeUpper = ustr ''METRO'' then Metro
      else if modeUpper = ustr ''TRAIN'' \<or> modeUpper = ustr ''COMMUTER_TRAIN'' then Train
      else if modeUpper = ustr ''TRAM'' then Tram
      else if modeUpper = ustr ''SHIP'' \<or> modeUpper = ustr ''FERRY'' then Ship
      else Bus)"

definition parseDeparture :: "runtime \<Rightarrow> rawDeparture \<Rightarrow> number \<Rightarrow> Departure option" where
  "parseDeparture rt raw now =
     (case scheduled raw of
        None \<Rightarrow> None
      | Some scheduledStr \<Rightarrow>
          if scheduledStr = [] then None
          else
            let expectedStr = orDefault (expected raw) scheduledStr;
                scheduledT = newDate rt scheduledStr;
                expectedT = newDate rt expectedStr;
                minutes = Math_round (num_div (num_sub expectedT now) 60000)
            in
              if num_lt minutes (Num (- 1)) then None
              else
                let lineDesignation =
                      (case line raw of None \<Rightarrow> []
                       | Some l \<Rightarrow> (case designation l of None \<Rightarrow> [] | Some d \<Rightarrow> d));
                    transportMode =
                      (case line raw of None \<Rightarrow> []
                       | Some l \<Rightarrow> (case transport_mode l of None \<Rightarrow> [] | Some m \<Rightarrow> m));
                    dest = (case destination raw of None \<Rightarrow> [] | Some d \<Rightarrow> d);
                    platform =
                      (case stop_point raw of None \<Rightarrow> None | Some sp \<Rightarrow> sp_designation sp);
                    st = (case state raw of None \<Rightarrow> [] | Some s \<Rightarrow> toUpperCase rt s);
                    cancelled = (st = ustr ''CANCELLED'' \<or> st = ustr ''REPLACED'');
                    delayed = num_gt (num_sub expectedT scheduledT) (Num 60000)
                in
                  Some \<lparr> dep_type = mapTransportMode rt transportMode,
                         dep_line = lineDesignation,
                         dep_destination = dest,
                         scheduledTime = scheduledT,
                         expectedTime = expectedT,
                         minutesUntil = Math_max (Num 0) minutes,
                         isDelayed = delayed,
                         dep_platform = platform,
                         isCancelled = cancelled \<rparr>)"

text \<open>
  \<open>now\<close> is the clock, read once by \<open>new Date()\<close> before the records are parsed; it is a
  parameter here.
\<close>

definition parseDeparturesResponse ::
    "runtime \<Rightarrow> departuresPayload \<Rightarrow> number \<Rightarrow> Departure list" where
  "parseDeparturesResponse rt data now =
     (case departures data of
        None \<Rightarrow> []
      | Some departuresData \<Rightarrow>
          take 30
            (Array_sort (\<lambda>a b. num_sub (expectedTime a) (expectedTime b))
               (List.map_filter (\<lambda>dep. parseDeparture rt dep now) departuresData)))"

section \<open>Trips (journey planner API)\<close>

record TripLeg =
  leg_type :: kind
  leg_line :: "ustring option"
  direction :: "ustring option"
  departureTime :: number
  arrivalTime :: number
  durationSeconds :: number
  originName :: ustring
  destinationName :: ustring
  platform :: "ustring option"

record TripProposal =
  tp_departureTime :: number
  tp_arrivalTime :: number
  durationMinutes :: number
  walkToFirstLegSeconds :: number
  legs :: "TripLeg list"
  routeSummary :: ustring

record rawProperties =
  platformName :: "ustring option"
  prop_platform :: "ustring option"

text \<open>The origin and the destination of a raw leg are stop records of one shape.\<close>

record rawStop =
  departureTimeEstimated :: "ustring option"
  departureTimePlanned :: "ustring option"
  departureTimeBaseTimetable :: "ustring option"
  arrivalTimeEstimated :: "ustring option"
  arrivalTimePlanned :: "ustring option"
  arrivalTimeBaseTimetable :: "ustring option"
  stop_name :: "ustring option"
  properties :: "rawProperties option"

record rawProduct =
  product_name :: "ustring option"

record rawNamed =
  named_name :: "ustring option"

record rawTransportation =
  product :: "rawProduct option"
  disassembledName :: "ustring option"
  tr_number :: "ustring option"
  tr_name :: "ustring option"
  tr_destination :: "rawNamed option"

record rawLeg =
  origin :: "rawStop option"
  leg_destination :: "rawStop option"
  transportation :: "rawTransportation option"
  duration :: "number option"

record rawJourney =
  journey_legs :: "rawLeg list option"
  tripDuration :: "number option"

subsection \<open>The transit-mode classifier\<close>

text \<open>
  \<open>normalize("NFD")\<close>: every code point is replaced by its full canonical decomposition,
  then the canonical ordering puts each run of combining marks in the order of their
  combining classes, keeping marks of one class in their order.
\<close>

fun reorderInsert :: "runtime \<Rightarrow> nat \<Rightarrow> nat list \<Rightarrow> nat list" where
  "reorderInsert rt c [] = [c]"
| "reorderInsert rt c (d # ds) =
     (if combiningClass rt d \<noteq> 0 \<and> combiningClass rt d < combiningClass rt c
      then d # reorderInsert rt c ds else c # d # ds)"

definition canonicalOrder :: "runtime \<Rightarrow> ustring \<Rightarrow> ustring" where
  "canonicalOrder rt s = foldr (reorderInsert rt) s []"

definition normalizeNFD :: "runtime \<Rightarrow> ustring \<Rightarrow> ustring" where
  "normalizeNFD rt s = canonicalOrder rt (concat (map (decompose rt) s))"

text \<open>The \<open>replace\<close> call removes the combining diacritical marks, U+0300 to U+036F.\<close>

definition stripMarks :: "ustring \<Rightarrow> ustring" where
  "stripMarks s = filter (\<lambda>c. \<not> (768 \<le> c \<and> c \<le> 879)) s"

definition mapTransportTypeV2 :: "runtime \<Rightarrow> ustring \<Rightarrow> kind" where
  "mapTransportTypeV2 rt productName =
     (let normalized = stripMarks (normalizeNFD rt productName);
          upper = toUpperCase rt normalized
      in
        if str_includes upper (ustr ''FOOTPATH'') \<or> str_includes upper (ustr ''FOOT'')
           \<or> str_includes upper (ustr ''WALK'') then Walk
        else if str_includes upper (ustr ''TUNNELBANA'') \<or> str_includes upper (ustr ''METRO'')
          then Metro
        else if str_includes upper (ustr ''PENDEL'') \<or> str_includes upper (ustr ''TAG'')
           \<or> str_includes upper (ustr ''TRAIN'') then Train
        else if str_includes upper (ustr ''SPARV'') \<or> str_includes upper (ustr ''TRAM'')
          then Tram
        else if str_includes upper (ustr ''BAT'') \<or> str_includes upper (ustr ''SHIP'')
           \<or> str_includes upper (ustr ''FERRY'') then Ship
        else if str_includes upper (ustr ''BUS'') then Bus
        else Bus)"

text \<open>
  The classifier in the words of its description: a table of token lists in priority
  order, the first row with a token that occurs in the text decides, and \<open>bus\<close> is the
  default.
\<close>

definition modeTable :: "(ustring list \<times> kind) list" where
  "modeTable =
     [([ustr ''FOOTPATH'', ustr ''FOOT'', ustr ''WALK''], Walk),
      ([ustr ''TUNNELBANA'', ustr ''METRO''], Metro),
      ([ustr ''PENDEL'', ustr ''TAG'', ustr ''TRAIN''], Train),
      ([ustr ''SPARV'', ustr ''TRAM''], Tram),
      ([ustr ''BAT'', ustr ''SHIP'', ustr ''FERRY''], Ship),
      ([ustr ''BUS''], Bus)]"

definition firstMatch :: "(ustring list \<times> kind) list \<Rightarrow> ustring \<Rightarrow> kind" where
  "firstMatch table upper =
     (case find (\<lambda>row. list_ex (str_includes upper) (fst row)) table of
        None \<Rightarrow> Bus
      | Some row \<Rightarrow> snd row)"

subsection \<open>Legs and journeys\<close>

definition parseLegV2 :: "runtime \<Rightarrow> rawLeg \<Rightarrow> TripLeg option" where
  "parseLegV2 rt rawLeg =
     (case (origin rawLeg, leg_destination rawLeg, transportation rawLeg) of
        (Some orig, Some dest, Some transport) \<Rightarrow>
          let depTimeStr = orElse (departureTimeEstimated orig)
                             (orElse (departureTimePlanned orig)
                                (departureTimeBaseTimetable orig));
              arrTimeStr = orElse (arrivalTimeEstimated dest)
                             (orElse (arrivalTimePlanned dest)
                                (arrivalTimeBaseTimetable dest))
          in
            (case (depTimeStr, arrTimeStr) of
               (Some dep, Some arr) \<Rightarrow>
                 if dep = [] \<or> arr = [] then None
                 else
                   let departureT = newDate rt dep;
                       arrivalT = newDate rt arr;
                       seconds =
                         (case duration rawLeg of
                            Some d \<Rightarrow> d
                          | None \<Rightarrow>
                              Math_max (Num 0)
                                (Math_round (num_div (num_sub arrivalT departureT) 1000)));
                       productName =
                         orDefault (case product transport of None \<Rightarrow> None
                                    | Some p \<Rightarrow> product_name p) [];
                       ln = orElse (disassembledName transport)
                              (orElse (tr_number transport) (orElse (tr_name transport) None));
                       dir = orElse (case tr_destination transport of None \<Rightarrow> None
                                     | Some d \<Rightarrow> named_name d) None;
                       plat = (case properties orig of
                                 None \<Rightarrow> None
                               | Some pr \<Rightarrow>
                                   orElse (platformName pr) (orElse (prop_platform pr) None))
                   in
                     Some \<lparr> leg_type = mapTransportTypeV2 rt productName,
                            leg_line = ln,
                            direction = dir,
                            departureTime = departureT,
                            arrivalTime = arrivalT,
                            durationSeconds = seconds,
                            originName = orDefault (stop_name orig) (ustr ''Unknown''),
                            destinationName = orDefault (stop_name dest) (ustr ''Unknown''),
                            platform = plat \<rparr>
             | _ \<Rightarrow> None)
      | _ \<Rightarrow> None)"

text \<open>
  The merging loop. \<open>kept\<close> is the list \<open>legs\<close> built so far; its last element is
  extended in place when it and the current leg are both walks, otherwise the current leg
  is pushed.
\<close>

definition absorb :: "TripLeg \<Rightarrow> TripLeg \<Rightarrow> TripLeg" where
  "absorb lastLeg leg =
     lastLeg \<lparr> arrivalTime := arrivalTime leg,
               durationSeconds := num_add (durationSeconds lastLeg) (durationSeconds leg),
               destinationName := destinationName leg \<rparr>"

fun mergeLoop :: "TripLeg list \<Rightarrow> TripLeg list \<Rightarrow> TripLeg list" where
  "mergeLoop kept [] = kept"
| "mergeLoop kept (leg # rest) =
     mergeLoop
       (if kept \<noteq> [] \<and> leg_type (last kept) = Walk \<and> leg_type leg = Walk
        then butlast kept @ [absorb (last kept) leg]
        else kept @ [leg])
       rest"

text \<open>
  The leg that stands for a run of walks after merging, in the words of the description:
  the first leg of the run with the arrival time and the destination name of the last
  leg and the sum of the durations.
\<close>

definition mergedWalk :: "TripLeg list \<Rightarrow> TripLeg" where
  "mergedWalk run =
     (hd run) \<lparr> arrivalTime := arrivalTime (last run),
                durationSeconds := num_sum (map durationSeconds run),
                destinationName := destinationName (last run) \<rparr>"

definition kindName :: "kind \<Rightarrow> ustring" where
  "kindName k =
     (case k of Walk \<Rightarrow> ustr ''walk'' | Metro \<Rightarrow> ustr ''metro'' | Train \<Rightarrow> ustr ''train''
      | Tram \<Rightarrow> ustr ''tram'' | Bus \<Rightarrow> ustr ''bus'' | Ship \<Rightarrow> ustr ''ship'')"

fun join :: "ustring \<Rightarrow> ustring list \<Rightarrow> ustring" where
  "join sep [] = []"
| "join sep [x] = x"
| "join sep (x # y # ys) = x @ sep @ join sep (y # ys)"

definition buildRouteSummary :: "TripLeg list \<Rightarrow> ustring" where
  "buildRouteSummary ls =
     (let transportLegs = filter (\<lambda>leg. leg_type leg \<noteq> Walk) ls in
      if transportLegs = [] then ustr ''walk''
      else join (ustr '' -> '')
             (map (\<lambda>leg. kindName (leg_type leg) @
                      (case leg_line leg of
                         None \<Rightarrow> []
                       | Some l \<Rightarrow> if l = [] then [] else ustr '' '' @ l))
                transportLegs))"

text \<open>
  The whole body runs in a \<open>try\<close> whose handler returns \<open>null\<close>. With raw records of the
  types above the only statement that can raise is the read of \<open>firstLeg.departureTime\<close>
  on an empty \<open>legs\<close>, so that case returns \<open>None\<close> here.
\<close>

definition parseJourneyToTripProposal :: "runtime \<Rightarrow> rawJourney \<Rightarrow> TripProposal option" where
  "parseJourneyToTripProposal rt journey =
     (case journey_legs journey of
        None \<Rightarrow> None
      | Some rawLegs \<Rightarrow>
          if rawLegs = [] then None
          else
            let legsRaw = List.map_filter (parseLegV2 rt) rawLegs in
            if legsRaw = [] then None
            else
              let ls = mergeLoop [] legsRaw;
                  walkSeconds =
                    (if list_all (\<lambda>leg. leg_type leg = Walk) ls then Num 0
                     else num_sum
                            (map durationSeconds
                               (takeWhile (\<lambda>leg. leg_type leg = Walk) ls)))
              in
                (case ls of
                   [] \<Rightarrow> None
                 | firstLeg # _ \<Rightarrow>
                     let departureT = departureTime firstLeg;
                         arrivalT = arrivalTime (last ls);
                         tripDurationSeconds =
                           (case tripDuration journey of
                              Some t \<Rightarrow> t
                            | None \<Rightarrow>
                                Math_max (Num 0)
                                  (Math_round (num_div (num_sub arrivalT departureT) 1000)));
                         minutes = Math_max (Num 0) (Math_round (num_div tripDurationSeconds 60))
                     in
                       Some \<lparr> tp_departureTime = departureT,
                              tp_arrivalTime = arrivalT,
                              durationMinutes = minutes,
                              walkToFirstLegSeconds = walkSeconds,
                              legs = ls,
                              routeSummary = buildRouteSummary ls \<rparr>))"

section \<open>Resolving a stop\<close>

record TransportSite =
  site_id :: ustring
  site_name :: ustring
  coord :: "(number \<times> number) option"
  products :: "ustring list"

datatype error = Error ustring | ErrnoException ustring | SyntaxError

text \<open>\<open>/^\d+$/\<close>: one or more ASCII digits and nothing else.\<close>

definition isDigits :: "ustring \<Rightarrow> bool" where
  "isDigits s = (s \<noteq> [] \<and> list_all (\<lambda>c. 48 \<le> c \<and> c \<le> 57) s)"

text \<open>
  \<open>sites\<close> is the list that \<open>fetchSites\<close> returned. The branch for \<open>--near\<close> parses
  coordinates and searches the nearest site by great-circle distance in floating point;
  it is the parameter \<open>near\<close>, which returns what that branch returns or the error it
  throws.
\<close>

definition resolveSite ::
    "runtime \<Rightarrow> (TransportSite list \<Rightarrow> ustring \<Rightarrow> error + TransportSite option) \<Rightarrow>
     TransportSite list \<Rightarrow> ustring option \<Rightarrow> ustring option \<Rightarrow> error + TransportSite option"
  where
  "resolveSite rt near sites stopInput nearInput =
     (case (if truthy nearInput then nearInput else None) of
        Some nearStr \<Rightarrow> near sites nearStr
      | None \<Rightarrow>
         (case (if truthy stopInput then stopInput else None) of
            None \<Rightarrow> Inr None
          | Some stopStr \<Rightarrow>
              let trimmed = trim stopStr in
              if isDigits trimmed then
                (case find (\<lambda>site. site_id site = trimmed) sites of
                   Some m \<Rightarrow> Inr (Some m)
                 | None \<Rightarrow>
                     Inr (Some \<lparr> site_id = trimmed, site_name = trimmed, coord = None,
                                 products = [] \<rparr>))
              else
                let normalizedQuery = toLowerCase rt trimmed;
                    matches = filter (\<lambda>site. str_includes (toLowerCase rt (site_name site))
                                               normalizedQuery) sites
                in
                  if matches = [] then Inr None
                  else
                    (case find (\<lambda>site. toLowerCase rt (site_name site) = normalizedQuery)
                            matches of
                       Some exact \<Rightarrow> Inr (Some exact)
                     | None \<Rightarrow>
                        (case find (\<lambda>site. startsWith (toLowerCase rt (site_name site))
                                              normalizedQuery) matches of
                           Some pre \<Rightarrow> Inr (Some pre)
                         | None \<Rightarrow> Inr (Some (hd matches))))))"

text \<open>
  The resolver in the words of its description, on the query \<open>q\<close>: a purely numeric
  query is an identifier lookup that falls back on a placeholder site; any other query is
  matched without regard to case against the names of all sites, an equal name first,
  then a name that starts with the query, then the first name that contains it.
\<close>

definition resolveByQuery ::
    "runtime \<Rightarrow> TransportSite list \<Rightarrow> ustring \<Rightarrow> TransportSite option" where
  "resolveByQuery rt sites q =
     (if isDigits q then
        Some (case find (\<lambda>site. site_id site = q) sites of
                Some m \<Rightarrow> m
              | None \<Rightarrow> \<lparr> site_id = q, site_name = q, coord = None, products = [] \<rparr>)
      else
        (case find (\<lambda>site. toLowerCase rt (site_name site) = toLowerCase rt q) sites of
           Some exact \<Rightarrow> Some exact
         | None \<Rightarrow>
            (case find (\<lambda>site. prefix (toLowerCase rt q) (toLowerCase rt (site_name site)))
                    sites of
               Some pre \<Rightarrow> Some pre
             | None \<Rightarrow>
                 find (\<lambda>site. sublist (toLowerCase rt q) (toLowerCase rt (site_name site)))
                   sites)))"

section \<open>Configuration\<close>








section \<open>Sample data\<close>

text \<open>
  A runtime for the examples: an excerpt of the Unicode tables that covers ASCII and the
  accented letters of Latin-1 used below, and the time values of a few ISO date strings;
  any other string stands for one that does not parse.
\<close>

definition sampleDates :: "(ustring \<times> rat) list" where
  "sampleDates =
     [(ustr ''1970-01-01T00:00:00Z'', 0),
      (ustr ''1970-01-01T00:00:30Z'', 30000),
      (ustr ''1970-01-01T00:01:00Z'', 60000),
      (ustr ''1970-01-01T00:01:40Z'', 100000),
      (ustr ''1970-01-01T00:02:00Z'', 120000),
      (ustr ''1970-01-01T00:03:01Z'', 181000),
      (ustr ''1970-01-01T00:05:00Z'', 300000)]"

definition sampleRuntime :: runtime where
  "sampleRuntime =
     \<lparr> decompose = (\<lambda>c. if c = 229 then [97, 778] else if c = 228 then [97, 776]
                        else if c = 246 then [111, 776] else if c = 197 then [65, 778]
                        else if c = 196 then [65, 776] else if c = 214 then [79, 776]
                        else if c = 233 then [101, 769] else [c]),
       combiningClass = (\<lambda>c. if 768 \<le> c \<and> c \<le> 788 then 230 else 0),
       upperMapping = (\<lambda>c. if 97 \<le> c \<and> c \<le> 122 then [c - 32]
                           else if c = 181 then [924]
                           else if c = 223 then [83, 83]
                           else if 224 \<le> c \<and> c \<le> 254 \<and> c \<noteq> 247 then [c - 32]
                           else if c = 255 then [376]
                           else [c]),
       toLowerCase = map (\<lambda>c. if 65 \<le> c \<and> c \<le> 90 then c + 32
                               else if 192 \<le> c \<and> c \<le> 222 \<and> c \<noteq> 215 then c + 32
                               else c),
       newDate = (\<lambda>s. case map_of sampleDates s of None \<Rightarrow> NaN | Some t \<Rightarrow> Num t) \<rparr>"

definition rawDep :: "string \<Rightarrow> string option \<Rightarrow> rawDeparture" where
  "rawDep s e = \<lparr> scheduled = Some (ustr s), expected = map_option ustr e, line = None,
                  destination = None, stop_point = None, state = None \<rparr>"

definition sampleDeparture :: "rat \<Rightarrow> rat \<Rightarrow> rat \<Rightarrow> bool \<Rightarrow> Departure" where
  "sampleDeparture s e m late =
     \<lparr> dep_type = Bus, dep_line = [], dep_destination = [], scheduledTime = Num s,
       expectedTime = Num e, minutesUntil = Num m, isDelayed = late, dep_platform = None,
       isCancelled = False \<rparr>"

definition rawStopAt :: "string \<Rightarrow> string option \<Rightarrow> string option \<Rightarrow> rawStop" where
  "rawStopAt n dep arr =
     \<lparr> departureTimeEstimated = None, departureTimePlanned = map_option ustr dep,
       departureTimeBaseTimetable = None, arrivalTimeEstimated = None,
       arrivalTimePlanned = map_option ustr arr, arrivalTimeBaseTimetable = None,
       stop_name = Some (ustr n), properties = None \<rparr>"

definition sampleLeg ::
    "string \<Rightarrow> string \<Rightarrow> string \<Rightarrow> string \<Rightarrow> string \<Rightarrow> rat \<Rightarrow> rawLeg" where
  "sampleLeg productName a b dep arr secs =
     \<lparr> origin = Some (rawStopAt a (Some dep) None),
       leg_destination = Some (rawStopAt b None (Some arr)),
       transportation =
         Some \<lparr> product = Some \<lparr> product_name = Some (ustr productName) \<rparr>,
                disassembledName = None, tr_number = None, tr_name = None,
                tr_destination = None \<rparr>,
       duration = Some (Num secs) \<rparr>"

definition sampleJourney :: rawJourney where
  "sampleJourney =
     \<lparr> journey_legs =
         Some [sampleLeg ''footpath'' ''A'' ''B'' ''1970-01-01T00:00:00Z''
                 ''1970-01-01T00:01:00Z'' 60,
               sampleLeg ''footpath'' ''B'' ''C'' ''1970-01-01T00:01:00Z''
                 ''1970-01-01T00:02:00Z'' 45,
               sampleLeg ''Buss'' ''C'' ''D'' ''1970-01-01T00:02:00Z''
                 ''1970-01-01T00:05:00Z'' 180],
       tripDuration = None \<rparr>"

definition walkLeg :: "string \<Rightarrow> string \<Rightarrow> rat \<Rightarrow> rat \<Rightarrow> rat \<Rightarrow> TripLeg" where
  "walkLeg a b dep arr secs =
     \<lparr> leg_type = Walk, leg_line = None, direction = None, departureTime = Num dep,
       arrivalTime = Num arr, durationSeconds = Num secs, originName = ustr a,
       destinationName = ustr b, platform = None \<rparr>"

definition busLeg :: "string \<Rightarrow> string \<Rightarrow> rat \<Rightarrow> rat \<Rightarrow> rat \<Rightarrow> TripLeg" where
  "busLeg a b dep arr secs = (walkLeg a b dep arr secs) \<lparr> leg_type := Bus \<rparr>"

definition sampleProposal :: TripProposal where
  "sampleProposal =
     \<lparr> tp_departureTime = Num 0, tp_arrivalTime = Num 300000, durationMinutes = Num 5,
       walkToFirstLegSeconds = Num 105,
       legs = [walkLeg ''A'' ''C'' 0 120000 105, busLeg ''C'' ''D'' 120000 300000 180],
       routeSummary = ustr ''bus'' \<rparr>"

definition sampleSite :: "string \<Rightarrow> string \<Rightarrow> TransportSite" where
  "sampleSite i n = \<lparr> site_id = ustr i, site_name = ustr n, coord = None, products = [] \<rparr>"

definition sampleSites :: "TransportSite list" where
  "sampleSites =
     [sampleSite ''9001'' ''T-Centralen'', sampleSite ''9117'' ''Odenplan'',
      sampleSite ''9192'' ''Slussen'', sampleSite ''1079'' ''Odenplan norra'',
      sampleSite ''5000'' ''Norra Odenplan'']"

text \<open>A stand-in for the \<open>--near\<close> branch in examples that do not reach it.\<close>

definition unusedNear :: "TransportSite list \<Rightarrow> ustring \<Rightarrow> error + TransportSite option" where
  "unusedNear sites s = Inr None"




section \<open>Properties of the departure normalizer\<close>

lemma round_lt_m1:
  "num_lt (Math_round (num_div (num_sub (Num e) (Num n)) 60000)) (Num (- 1)) \<longleftrightarrow>
   e - n < - 90000"
proof -
  have "(of_int \<lfloor>(e - n) / 60000 + 1 / 2\<rfloor> :: rat) < - 1 \<longleftrightarrow>
        \<lfloor>(e - n) / 60000 + 1 / 2\<rfloor> < - 1"
    by (metis of_int_less_iff of_int_minus of_int_1)
  also have "\<dots> \<longleftrightarrow> (e - n) / 60000 + 1 / 2 < - 1"
    by (simp add: floor_less_iff)
  also have "\<dots> \<longleftrightarrow> e - n < - 90000"
    by (simp add: field_simps)
  finally show ?thesis by simp
qed

lemma parseDeparture_None_iff:
  assumes "scheduled raw = Some s" and "s \<noteq> []"
  shows "parseDeparture rt raw now = None \<longleftrightarrow>
         num_lt (Math_round (num_div
                   (num_sub (newDate rt (orDefault (expected raw) s)) now) 60000))
           (Num (- 1))"
  using assms by (simp add: parseDeparture_def Let_def)

lemma parseDeparture_unscheduled:
  "\<not> truthy (scheduled raw) \<Longrightarrow> parseDeparture rt raw now = None"
  by (cases "scheduled raw") (simp_all add: parseDeparture_def)

lemma parseDeparture_fields:
  assumes "parseDeparture rt raw now = Some d"
  shows "\<exists>s. scheduled raw = Some s \<and> s \<noteq> [] \<and>
             expectedTime d = newDate rt (orDefault (expected raw) s) \<and>
             scheduledTime d = newDate rt s \<and>
             minutesUntil d =
               Math_max (Num 0)
                 (Math_round (num_div (num_sub (expectedTime d) now) 60000)) \<and>
             isDelayed d =
               num_gt (num_sub (expectedTime d) (scheduledTime d)) (Num 60000)"
  using assms
  by (auto simp: parseDeparture_def Let_def split: option.splits if_splits)

lemma map_filter_drop:
  "f x = None \<Longrightarrow> List.map_filter f (xs @ x # ys) = List.map_filter f (xs @ ys)"
  by (simp add: List.map_filter_def)

subsection \<open>The sort\<close>

lemma set_insert_by: "set (insert_by cmp x ys) = insert x (set ys)"
  by (induction ys) auto

lemma length_insert_by: "length (insert_by cmp x ys) = Suc (length ys)"
  by (induction ys) auto

lemma set_Array_sort: "set (Array_sort cmp xs) = set xs"
  by (induction xs) (auto simp: Array_sort_def set_insert_by)

lemma length_Array_sort: "length (Array_sort cmp xs) = length xs"
  by (induction xs) (auto simp: Array_sort_def length_insert_by)

lemma num_le_trans: "num_le a b \<Longrightarrow> num_le b c \<Longrightarrow> num_le a c"
  by (cases a; cases b; cases c) auto

lemma sorted_insert_by:
  assumes "key x \<noteq> NaN" and "\<forall>y \<in> set ys. key y \<noteq> NaN"
    and "sorted_wrt (\<lambda>a b. num_le (key a) (key b)) ys"
  shows "sorted_wrt (\<lambda>a b. num_le (key a) (key b))
           (insert_by (\<lambda>a b. num_sub (key a) (key b)) x ys)"
  using assms
proof (induction ys)
  case Nil
  then show ?case by simp
next
  case (Cons y ys)
  obtain kx ky where k: "key x = Num kx" "key y = Num ky"
    using Cons.prems by (cases "key x"; cases "key y") auto
  show ?case
  proof (cases "kx > ky")
    case True
    then have "num_le (key y) (key x)" using k by simp
    moreover have "sorted_wrt (\<lambda>a b. num_le (key a) (key b))
           (insert_by (\<lambda>a b. num_sub (key a) (key b)) x ys)"
      using Cons by simp
    ultimately show ?thesis using True k Cons.prems by (auto simp: set_insert_by)
  next
    case False
    then have xy: "num_le (key x) (key y)" using k by simp
    have "\<forall>z \<in> set ys. num_le (key x) (key z)"
      using xy Cons.prems(3) by (auto intro: num_le_trans)
    then show ?thesis using False k xy Cons.prems by auto
  qed
qed

lemma sorted_Array_sort:
  assumes "\<forall>y \<in> set xs. key y \<noteq> NaN"
  shows "sorted_wrt (\<lambda>a b. num_le (key a) (key b))
           (Array_sort (\<lambda>a b. num_sub (key a) (key b)) xs)"
  using assms
proof (induction xs)
  case Nil
  then show ?case by (simp add: Array_sort_def)
next
  case (Cons x xs)
  have "sorted_wrt (\<lambda>a b. num_le (key a) (key b))
           (insert_by (\<lambda>a b. num_sub (key a) (key b)) x
              (Array_sort (\<lambda>a b. num_sub (key a) (key b)) xs))"
    using Cons by (intro sorted_insert_by) (auto simp: set_Array_sort)
  then show ?case by (simp add: Array_sort_def)
qed

subsection \<open>Order, cap and minutes\<close>

text \<open>
  The cap holds for every payload. Order and non-negative minutes hold for a payload in
  which the expected time of every record with a scheduled time parses to a valid date.
\<close>

lemma departures_capped: "length (parseDeparturesResponse rt data now) \<le> 30"
  by (simp add: parseDeparturesResponse_def split: option.splits)

lemma departures_valid_sorted_capped:
  assumes "\<forall>raw \<in> set ds. \<forall>s. scheduled raw = Some s \<longrightarrow>
             newDate rt (orDefault (expected raw) s) \<noteq> NaN"
  shows "sorted_wrt (\<lambda>a b. num_le (expectedTime a) (expectedTime b))
           (parseDeparturesResponse rt \<lparr>departures = Some ds\<rparr> (Num n))
         \<and> length (parseDeparturesResponse rt \<lparr>departures = Some ds\<rparr> (Num n)) \<le> 30
         \<and> (\<forall>d \<in> set (parseDeparturesResponse rt \<lparr>departures = Some ds\<rparr> (Num n)).
               num_ge (minutesUntil d) (Num 0))"
proof -
  let ?ps = "List.map_filter (\<lambda>dep. parseDeparture rt dep (Num n)) ds"
  let ?out = "parseDeparturesResponse rt \<lparr>departures = Some ds\<rparr> (Num n)"
  have out: "?out = take 30 (Array_sort (\<lambda>a b. num_sub (expectedTime a) (expectedTime b)) ?ps)"
    by (simp add: parseDeparturesResponse_def)
  have valid: "expectedTime d \<noteq> NaN \<and> num_ge (minutesUntil d) (Num 0)"
    if "d \<in> set ?ps" for d
  proof -
    from that obtain raw where raw: "raw \<in> set ds" "parseDeparture rt raw (Num n) = Some d"
      by (auto simp: List.map_filter_def)
    from parseDeparture_fields [OF raw(2)] obtain s where
      s: "scheduled raw = Some s" "expectedTime d = newDate rt (orDefault (expected raw) s)"
         "minutesUntil d =
            Math_max (Num 0) (Math_round (num_div (num_sub (expectedTime d) (Num n)) 60000))"
      by blast
    from assms raw(1) s(1,2) have "expectedTime d \<noteq> NaN" by auto
    then obtain e where "expectedTime d = Num e" by (cases "expectedTime d") auto
    with s(3) show ?thesis by simp
  qed
  have "sorted_wrt (\<lambda>a b. num_le (expectedTime a) (expectedTime b))
          (Array_sort (\<lambda>a b. num_sub (expectedTime a) (expectedTime b)) ?ps)"
    by (rule sorted_Array_sort) (use valid in blast)
  then have 1: "sorted_wrt (\<lambda>a b. num_le (expectedTime a) (expectedTime b)) ?out"
    unfolding out by (rule sorted_wrt_take)
  have 2: "length ?out \<le> 30" unfolding out by simp
  have 3: "\<forall>d \<in> set ?out. num_ge (minutesUntil d) (Num 0)"
    unfolding out using valid by (auto dest!: in_set_takeD simp: set_Array_sort)
  from 1 2 3 show ?thesis by blast
qed

subsection \<open>Claims about departures\<close>

text \<open>
  C2. For every raw departures payload the returned list is sorted non-decreasing by
  expected time, has at most 30 entries, and every entry has \<open>minutesUntil >= 0\<close>.
  The code does not keep this for a record whose time string does not parse: the stale
  test \<open>minutesUntil < -1\<close> is false on \<open>NaN\<close>, the record is kept, and the clamp
  \<open>Math.max(0, minutesUntil)\<close> is \<open>NaN\<close>, which is not \<open>>= 0\<close>. The payload below has one
  such record. For payloads whose expected times are all valid dates the property holds
  (\<open>departures_valid_sorted_capped\<close>).
\<close>

theorem invalid_date_departure_kept:
  "map minutesUntil
     (parseDeparturesResponse sampleRuntime
        \<lparr>departures = Some [rawDep ''garbage'' None]\<rparr> (Num 100000)) = [NaN]
   \<and> \<not> num_ge NaN (Num 0)"
  by code_simp

text \<open>
  C3. As stated: a record whose expected time is more than 60000 ms earlier than \<open>now\<close>
  is excluded. The code compares the rounded number of minutes with \<open>-1\<close>, so a record
  70 seconds in the past is kept: its minutes round to \<open>-1\<close>, which is not below \<open>-1\<close>.
\<close>

theorem stale_within_90s_kept:
  "num_lt (num_sub (newDate sampleRuntime (ustr ''1970-01-01T00:00:30Z'')) (Num 100000))
     (Num (- 60000))
   \<and> map expectedTime
       (parseDeparturesResponse sampleRuntime
          \<lparr>departures = Some [rawDep ''1970-01-01T00:00:30Z'' None]\<rparr> (Num 100000)) =
     [Num 30000]"
  by code_simp

text \<open>
  The test on the rounded minutes, in milliseconds: a record with a scheduled time and a
  valid expected time fails to parse exactly when it is more than 90000 ms stale.
\<close>

lemma parseDeparture_stale_iff:
  assumes "scheduled raw = Some s" and "s \<noteq> []"
    and "newDate rt (orDefault (expected raw) s) = Num e"
  shows "parseDeparture rt raw (Num n) = None \<longleftrightarrow> e - n < - 90000"
  using parseDeparture_None_iff [OF assms(1,2), of rt "Num n"] round_lt_m1 [of e n]
  by (simp only: assms(3))

lemma num_lt_NumD:
  "num_lt (num_sub a b) (Num k) \<Longrightarrow> \<exists>x y. a = Num x \<and> b = Num y \<and> x - y < k"
  by (cases a; cases b) auto

text \<open>
  C3, amended. A raw departure record whose expected time (the date of
  \<open>raw.expected || raw.scheduled\<close>) is more than 90000 ms earlier than \<open>now\<close> is excluded
  from the output: it does not parse, and the output for a payload that holds it is the
  output for the payload without it.
\<close>

theorem stale_departure_excluded:
  assumes "num_lt (num_sub (newDate rt (orDefault (expected raw) (orDefault (scheduled raw) [])))
                     now) (Num (- 90000))"
  shows "parseDeparture rt raw now = None \<and>
         parseDeparturesResponse rt \<lparr>departures = Some (xs @ raw # ys)\<rparr> now =
         parseDeparturesResponse rt \<lparr>departures = Some (xs @ ys)\<rparr> now"
proof -
  from num_lt_NumD [OF assms] obtain e n where
    en: "newDate rt (orDefault (expected raw) (orDefault (scheduled raw) [])) = Num e"
        "now = Num n" "e - n < - 90000"
    by blast
  have none: "parseDeparture rt raw now = None"
  proof (cases "truthy (scheduled raw)")
    case False
    then show ?thesis by (rule parseDeparture_unscheduled)
  next
    case True
    then obtain s where s: "scheduled raw = Some s" "s \<noteq> []"
      by (cases "scheduled raw") auto
    then have "orDefault (scheduled raw) [] = s" by (simp add: orDefault_def)
    with en(1) have e: "newDate rt (orDefault (expected raw) s) = Num e" by simp
    from parseDeparture_None_iff [OF s, of rt now]
    have "parseDeparture rt raw (Num n) = None \<longleftrightarrow>
          num_lt (Math_round (num_div (num_sub (Num e) (Num n)) 60000)) (Num (- 1))"
      unfolding e en(2) .
    then show ?thesis using round_lt_m1 [of e n] en(2,3) by simp
  qed
  then show ?thesis
    by (simp add: parseDeparturesResponse_def map_filter_drop)
qed

theorem stale_departure_excluded_witness:
  "parseDeparture sampleRuntime
     (rawDep ''1970-01-01T00:03:01Z'' (Some ''1970-01-01T00:00:00Z'')) (Num 100000) = None
   \<and> parseDeparturesResponse sampleRuntime
        \<lparr>departures = Some ([rawDep ''1970-01-01T00:05:00Z'' None]
             @ rawDep ''1970-01-01T00:03:01Z'' (Some ''1970-01-01T00:00:00Z'') # [])\<rparr>
        (Num 100000) =
      parseDeparturesResponse sampleRuntime
        \<lparr>departures = Some ([rawDep ''1970-01-01T00:05:00Z'' None] @ [])\<rparr> (Num 100000)"
proof -
  let ?raw = "rawDep ''1970-01-01T00:03:01Z'' (Some ''1970-01-01T00:00:00Z'')"
  have c: "num_lt (num_sub (newDate sampleRuntime
             (orDefault (expected ?raw) (orDefault (scheduled ?raw) []))) (Num 100000))
             (Num (- 90000))"
    by code_simp
  show ?thesis
    using stale_departure_excluded
            [OF c, of "[rawDep ''1970-01-01T00:05:00Z'' None]" "[]"]
    by simp
qed

text \<open>
  C4. For every parsed departure the delay flag is true if and only if the expected time
  minus the scheduled time exceeds 60000 ms.
\<close>

theorem delayed_iff:
  assumes "parseDeparture rt raw now = Some d"
  shows "isDelayed d \<longleftrightarrow>
         (\<exists>e s. expectedTime d = Num e \<and> scheduledTime d = Num s \<and> e - s > 60000)"
proof -
  have "isDelayed d = num_gt (num_sub (expectedTime d) (scheduledTime d)) (Num 60000)"
    using parseDeparture_fields [OF assms] by blast
  also have "\<dots> \<longleftrightarrow>
      (\<exists>e s. expectedTime d = Num e \<and> scheduledTime d = Num s \<and> e - s > 60000)"
    by (cases "expectedTime d"; cases "scheduledTime d") auto
  finally show ?thesis .
qed

theorem delayed_iff_witness:
  "parseDeparture sampleRuntime
     (rawDep ''1970-01-01T00:02:00Z'' (Some ''1970-01-01T00:05:00Z'')) (Num 100000) =
     Some (sampleDeparture 120000 300000 3 True)
   \<and> parseDeparture sampleRuntime
     (rawDep ''1970-01-01T00:01:00Z'' (Some ''1970-01-01T00:02:00Z'')) (Num 100000) =
     Some (sampleDeparture 60000 120000 0 False)
   \<and> (\<exists>e s. expectedTime (sampleDeparture 120000 300000 3 True) = Num e \<and>
             scheduledTime (sampleDeparture 120000 300000 3 True) = Num s \<and> e - s > 60000)
   \<and> \<not> (\<exists>e s. expectedTime (sampleDeparture 60000 120000 0 False) = Num e \<and>
             scheduledTime (sampleDeparture 60000 120000 0 False) = Num s \<and> e - s > 60000)"
proof -
  have p: "parseDeparture sampleRuntime
     (rawDep ''1970-01-01T00:02:00Z'' (Some ''1970-01-01T00:05:00Z'')) (Num 100000) =
     Some (sampleDeparture 120000 300000 3 True)"
    by code_simp
  have q: "parseDeparture sampleRuntime
     (rawDep ''1970-01-01T00:01:00Z'' (Some ''1970-01-01T00:02:00Z'')) (Num 100000) =
     Some (sampleDeparture 60000 120000 0 False)"
    by code_simp
  have l1: "isDelayed (sampleDeparture 120000 300000 3 True)"
    and l2: "\<not> isDelayed (sampleDeparture 60000 120000 0 False)"
    by (simp_all add: sampleDeparture_def)
  show ?thesis
    using delayed_iff [OF p] delayed_iff [OF q] p q l1 l2 by blast
qed

text \<open>
  C9. For a record with a scheduled time and no expected time field, a parsed departure
  has its expected time equal to its scheduled time and is not flagged delayed.
\<close>

theorem missing_expected_defaults:
  assumes "scheduled raw = Some s" and "expected raw = None"
    and "parseDeparture rt raw now = Some d"
  shows "expectedTime d = scheduledTime d \<and> scheduledTime d = newDate rt s
         \<and> \<not> isDelayed d"
proof -
  from parseDeparture_fields [OF assms(3)] assms(1,2)
  have f: "expectedTime d = newDate rt s" "scheduledTime d = newDate rt s"
    "isDelayed d = num_gt (num_sub (expectedTime d) (scheduledTime d)) (Num 60000)"
    by (auto simp: orDefault_def)
  then have "\<not> isDelayed d" by (cases "newDate rt s") auto
  with f show ?thesis by simp
qed

theorem missing_expected_defaults_witness:
  "parseDeparture sampleRuntime (rawDep ''1970-01-01T00:05:00Z'' None) (Num 100000) =
     Some (sampleDeparture 300000 300000 3 False)
   \<and> expectedTime (sampleDeparture 300000 300000 3 False) =
     scheduledTime (sampleDeparture 300000 300000 3 False)
   \<and> \<not> isDelayed (sampleDeparture 300000 300000 3 False)"
proof -
  let ?raw = "rawDep ''1970-01-01T00:05:00Z'' None"
  have a: "scheduled ?raw = Some (ustr ''1970-01-01T00:05:00Z'')"
    and b: "expected ?raw = None"
    by (simp_all add: rawDep_def)
  have p: "parseDeparture sampleRuntime ?raw (Num 100000) =
     Some (sampleDeparture 300000 300000 3 False)"
    by code_simp
  show ?thesis using missing_expected_defaults [OF a b p] p by simp
qed

section \<open>Properties of the journey normalizer\<close>

subsection \<open>The merging loop\<close>

lemma mergeLoop_append: "mergeLoop kept (xs @ ys) = mergeLoop (mergeLoop kept xs) ys"
  by (induction xs arbitrary: kept) simp_all

text \<open>The loop only ever touches the last kept leg.\<close>

lemma mergeLoop_kept:
  "kept \<noteq> [] \<Longrightarrow> mergeLoop kept xs = butlast kept @ mergeLoop [last kept] xs"
proof (induction xs arbitrary: kept)
  case Nil
  then show ?case by simp
next
  case (Cons leg rest)
  show ?case
  proof (cases "leg_type (last kept) = Walk \<and> leg_type leg = Walk")
    case True
    have "mergeLoop kept (leg # rest) = mergeLoop (butlast kept @ [absorb (last kept) leg]) rest"
      using True Cons.prems by simp
    also have "\<dots> = butlast kept @ mergeLoop [absorb (last kept) leg] rest"
      using Cons.IH [of "butlast kept @ [absorb (last kept) leg]"] by simp
    finally show ?thesis using True by simp
  next
    case False
    have "mergeLoop kept (leg # rest) = mergeLoop (kept @ [leg]) rest"
      using False by auto
    also have "\<dots> = kept @ mergeLoop [leg] rest"
      using Cons.IH [of "kept @ [leg]"] by simp
    finally have l: "mergeLoop kept (leg # rest) = kept @ mergeLoop [leg] rest" .
    have "mergeLoop [last kept] (leg # rest) = mergeLoop [last kept, leg] rest"
      using False by auto
    also have "\<dots> = [last kept] @ mergeLoop [leg] rest"
      using Cons.IH [of "[last kept, leg]"] by simp
    finally show ?thesis using l Cons.prems by simp
  qed
qed

lemma mergeLoop_nonempty: "kept \<noteq> [] \<or> xs \<noteq> [] \<Longrightarrow> mergeLoop kept xs \<noteq> []"
  by (induction xs arbitrary: kept) auto

lemma absorb_type [simp]: "leg_type (absorb a b) = leg_type a"
  by (simp add: absorb_def)

lemma mergeLoop_last_type:
  "kept \<noteq> [] \<or> xs \<noteq> [] \<Longrightarrow>
   leg_type (last (mergeLoop kept xs)) = leg_type (last (kept @ xs))"
proof (induction xs arbitrary: kept)
  case Nil
  then show ?case by simp
next
  case (Cons leg rest)
  let ?k = "if kept \<noteq> [] \<and> leg_type (last kept) = Walk \<and> leg_type leg = Walk
        then butlast kept @ [absorb (last kept) leg] else kept @ [leg]"
  have ne: "?k \<noteq> []" by simp
  have "leg_type (last (mergeLoop ?k rest)) = leg_type (last (?k @ rest))"
    using Cons.IH [of ?k] ne by blast
  moreover have "leg_type (last (?k @ rest)) = leg_type (last (kept @ leg # rest))"
    by (cases "rest = []") auto
  ultimately show ?case by simp
qed

lemma mergeLoop_hd_type:
  "leg_type (hd (mergeLoop [] (y # ys))) = leg_type y"
proof -
  have "leg_type (hd (mergeLoop [x] xs)) = leg_type x" for x xs
  proof (induction xs arbitrary: x)
    case Nil
    then show ?case by simp
  next
    case (Cons leg rest)
    show ?case
    proof (cases "leg_type x = Walk \<and> leg_type leg = Walk")
      case True
      then show ?thesis using Cons.IH [of "absorb x leg"] by simp
    next
      case False
      then have "mergeLoop [x] (leg # rest) = mergeLoop [x, leg] rest" by auto
      also have "\<dots> = [x] @ mergeLoop [leg] rest"
        using mergeLoop_kept [of "[x, leg]" rest] by simp
      finally show ?thesis by simp
    qed
  qed
  then show ?thesis by simp
qed

text \<open>Where two neighbours are not both walks the loop treats the two parts alone.\<close>

lemma mergeLoop_split:
  assumes "xs = [] \<or> ys = [] \<or> \<not> (leg_type (last xs) = Walk \<and> leg_type (hd ys) = Walk)"
  shows "mergeLoop [] (xs @ ys) = mergeLoop [] xs @ mergeLoop [] ys"
proof (cases "xs = [] \<or> ys = []")
  case True
  then show ?thesis by (auto simp: mergeLoop_append)
next
  case False
  then obtain y ys' where ys: "ys = y # ys'" by (cases ys) auto
  let ?K = "mergeLoop [] xs"
  have ne: "?K \<noteq> []" using False by (simp add: mergeLoop_nonempty)
  have lt: "leg_type (last ?K) = leg_type (last xs)"
    using mergeLoop_last_type [of "[]" xs] False by simp
  have nb: "\<not> (leg_type (last ?K) = Walk \<and> leg_type y = Walk)"
    using assms False ys lt by simp
  have "mergeLoop [] (xs @ ys) = mergeLoop ?K ys" by (simp add: mergeLoop_append)
  also have "\<dots> = butlast ?K @ mergeLoop [last ?K] ys" using ne by (rule mergeLoop_kept)
  also have "mergeLoop [last ?K] ys = mergeLoop [last ?K, y] ys'"
    using nb ys by auto
  also have "\<dots> = [last ?K] @ mergeLoop [y] ys'"
    using mergeLoop_kept [of "[last ?K, y]" ys'] by simp
  also have "mergeLoop [y] ys' = mergeLoop [] ys" using ys by simp
  finally show ?thesis using ne by simp
qed

lemma num_add_assoc: "num_add (num_add a b) c = num_add a (num_add b c)"
  by (cases a; cases b; cases c) simp_all

lemma foldl_num_add: "foldl num_add (num_add a b) xs = num_add a (foldl num_add b xs)"
  by (induction xs arbitrary: b) (simp_all add: num_add_assoc)

lemma num_add_0 [simp]: "num_add (Num 0) a = a"
  by (cases a) simp_all

lemma num_sum_Cons: "num_sum (x # xs) = num_add x (num_sum xs)"
proof -
  have "num_sum (x # xs) = foldl num_add (num_add x (Num 0)) xs"
    by (cases x) (simp_all add: num_sum_def)
  then show ?thesis by (simp add: foldl_num_add num_sum_def)
qed

text \<open>A run of walks collapses into its merged leg.\<close>

lemma mergeLoop_walks:
  assumes "leg_type w = Walk" and "\<forall>l \<in> set ws. leg_type l = Walk"
  shows "mergeLoop [w] ws = [mergedWalk (w # ws)]"
  using assms
proof (induction ws arbitrary: w)
  case Nil
  then show ?case by (cases "durationSeconds w") (simp_all add: mergedWalk_def num_sum_def)
next
  case (Cons x xs)
  have "mergeLoop [w] (x # xs) = mergeLoop [absorb w x] xs"
    using Cons.prems by simp
  also have "\<dots> = [mergedWalk (absorb w x # xs)]"
    using Cons.prems by (intro Cons.IH) simp_all
  also have "mergedWalk (absorb w x # xs) = mergedWalk (w # x # xs)"
    by (simp add: mergedWalk_def absorb_def num_sum_Cons num_add_assoc)
  finally show ?case .
qed

lemma merge_run:
  assumes "run \<noteq> []" and "\<forall>l \<in> set run. leg_type l = Walk"
    and "pre = [] \<or> leg_type (last pre) \<noteq> Walk"
    and "post = [] \<or> leg_type (hd post) \<noteq> Walk"
  shows "mergeLoop [] (pre @ run @ post) =
         mergeLoop [] pre @ [mergedWalk run] @ mergeLoop [] post"
proof -
  obtain w ws where run: "run = w # ws" using assms(1) by (cases run) auto
  have "mergeLoop [] (pre @ run @ post) = mergeLoop [] pre @ mergeLoop [] (run @ post)"
    using assms(1,2,3) run by (intro mergeLoop_split) auto
  also have "mergeLoop [] (run @ post) = mergeLoop [] run @ mergeLoop [] post"
    using assms(4) by (intro mergeLoop_split) auto
  also have "mergeLoop [] run = [mergedWalk run]"
    using mergeLoop_walks [of w ws] assms(2) run by simp
  finally show ?thesis by simp
qed

text \<open>No two neighbours of the kept list are both walks.\<close>

lemma mergeLoop_successively:
  assumes "successively (\<lambda>a b. \<not> (leg_type a = Walk \<and> leg_type b = Walk)) kept"
  shows "successively (\<lambda>a b. \<not> (leg_type a = Walk \<and> leg_type b = Walk)) (mergeLoop kept xs)"
  using assms
proof (induction xs arbitrary: kept)
  case Nil
  then show ?case by simp
next
  case (Cons leg rest)
  let ?Q = "\<lambda>a b. \<not> (leg_type a = Walk \<and> leg_type b = Walk)"
  let ?k = "if kept \<noteq> [] \<and> leg_type (last kept) = Walk \<and> leg_type leg = Walk
        then butlast kept @ [absorb (last kept) leg] else kept @ [leg]"
  have "successively ?Q ?k"
  proof (cases "kept = []")
    case True
    then show ?thesis by simp
  next
    case False
    then have k: "kept = butlast kept @ [last kept]" by simp
    have b: "successively ?Q (butlast kept)"
      and l: "butlast kept = [] \<or> ?Q (last (butlast kept)) (last kept)"
      using Cons.prems k successively_append_iff [of ?Q "butlast kept" "[last kept]"]
      by auto
    show ?thesis
    proof (cases "leg_type (last kept) = Walk \<and> leg_type leg = Walk")
      case True
      then show ?thesis using False b l by (simp add: successively_append_iff)
    next
      case nw: False
      then show ?thesis using False Cons.prems by (auto simp: successively_append_iff)
    qed
  qed
  then show ?case using Cons.IH [of ?k] by simp
qed

lemma successively_nth:
  "successively P xs \<Longrightarrow> Suc i < length xs \<Longrightarrow> P (xs ! i) (xs ! Suc i)"
proof (induction P xs arbitrary: i rule: successively.induct)
  case (3 P x y xs)
  then show ?case by (cases i) auto
qed simp_all

subsection \<open>The proposal\<close>

text \<open>
  A journey with at least one leg that parses gets a proposal, and its legs are the
  result of the merging loop on the parsed legs.
\<close>

lemma parseJourney_legs:
  assumes "journey_legs journey = Some rawLegs"
    and "List.map_filter (parseLegV2 rt) rawLegs \<noteq> []"
  shows "\<exists>p. parseJourneyToTripProposal rt journey = Some p \<and>
             legs p = mergeLoop [] (List.map_filter (parseLegV2 rt) rawLegs)"
proof -
  have "rawLegs \<noteq> []" using assms(2) by (auto simp: List.map_filter_def)
  moreover have "mergeLoop [] (List.map_filter (parseLegV2 rt) rawLegs) \<noteq> []"
    using assms(2) by (simp add: mergeLoop_nonempty)
  ultimately show ?thesis
    using assms by (auto simp: parseJourneyToTripProposal_def Let_def split: list.splits)
qed

lemma parseJourney_Some:
  assumes "parseJourneyToTripProposal rt journey = Some p"
  shows "\<exists>rawLegs. journey_legs journey = Some rawLegs \<and>
           List.map_filter (parseLegV2 rt) rawLegs \<noteq> [] \<and>
           legs p = mergeLoop [] (List.map_filter (parseLegV2 rt) rawLegs)"
  using assms
  by (auto simp: parseJourneyToTripProposal_def Let_def
           split: option.splits if_splits list.splits)

subsection \<open>The sample journey\<close>

lemma sample_journey_legs:
  "journey_legs sampleJourney =
     Some [sampleLeg ''footpath'' ''A'' ''B'' ''1970-01-01T00:00:00Z''
             ''1970-01-01T00:01:00Z'' 60,
           sampleLeg ''footpath'' ''B'' ''C'' ''1970-01-01T00:01:00Z''
             ''1970-01-01T00:02:00Z'' 45,
           sampleLeg ''Buss'' ''C'' ''D'' ''1970-01-01T00:02:00Z''
             ''1970-01-01T00:05:00Z'' 180]"
  by (simp add: sampleJourney_def)

lemma sample_parsed:
  "List.map_filter (parseLegV2 sampleRuntime)
     [sampleLeg ''footpath'' ''A'' ''B'' ''1970-01-01T00:00:00Z'' ''1970-01-01T00:01:00Z'' 60,
      sampleLeg ''footpath'' ''B'' ''C'' ''1970-01-01T00:01:00Z'' ''1970-01-01T00:02:00Z'' 45,
      sampleLeg ''Buss'' ''C'' ''D'' ''1970-01-01T00:02:00Z'' ''1970-01-01T00:05:00Z'' 180] =
   [] @ [walkLeg ''A'' ''B'' 0 60000 60, walkLeg ''B'' ''C'' 60000 120000 45] @
   [busLeg ''C'' ''D'' 120000 300000 180]"
  by code_simp

lemma sample_proposal:
  "parseJourneyToTripProposal sampleRuntime sampleJourney = Some sampleProposal"
  by code_simp

subsection \<open>Claims about journeys\<close>

text \<open>
  C1. Where the parsed legs of a journey contain a maximal run of two or more consecutive
  walk legs (the leg before the run, if any, and the leg after it, if any, are not walks),
  the journey gets a proposal whose legs are the merged legs before the run, then exactly
  one walk leg in place of the run, then the merged legs after the run. That leg's
  duration is the sum of the durations of the run, and its arrival time and destination
  name are those of the last leg of the run. Its neighbours in the output are not walks.
\<close>

theorem walk_run_merged:
  assumes "journey_legs journey = Some rawLegs"
    and "List.map_filter (parseLegV2 rt) rawLegs = pre @ run @ post"
    and "2 \<le> length run" and "\<forall>l \<in> set run. leg_type l = Walk"
    and "pre = [] \<or> leg_type (last pre) \<noteq> Walk"
    and "post = [] \<or> leg_type (hd post) \<noteq> Walk"
  shows "\<exists>p w. parseJourneyToTripProposal rt journey = Some p \<and>
           legs p = mergeLoop [] pre @ [w] @ mergeLoop [] post \<and>
           leg_type w = Walk \<and>
           durationSeconds w = num_sum (map durationSeconds run) \<and>
           arrivalTime w = arrivalTime (last run) \<and>
           destinationName w = destinationName (last run) \<and>
           (pre = [] \<or> leg_type (last (mergeLoop [] pre)) \<noteq> Walk) \<and>
           (post = [] \<or> leg_type (hd (mergeLoop [] post)) \<noteq> Walk)"
proof -
  have ne: "run \<noteq> []" using assms(3) by auto
  then have "List.map_filter (parseLegV2 rt) rawLegs \<noteq> []" using assms(2) by simp
  from parseJourney_legs [OF assms(1) this] obtain p where
    p: "parseJourneyToTripProposal rt journey = Some p"
       "legs p = mergeLoop [] (pre @ run @ post)"
    using assms(2) by auto
  have l: "legs p = mergeLoop [] pre @ [mergedWalk run] @ mergeLoop [] post"
    using p(2) merge_run [OF ne assms(4,5,6)] by simp
  have "hd run \<in> set run" using ne by simp
  then have t: "leg_type (mergedWalk run) = Walk"
    using assms(4) by (simp add: mergedWalk_def)
  have f: "durationSeconds (mergedWalk run) = num_sum (map durationSeconds run)"
    "arrivalTime (mergedWalk run) = arrivalTime (last run)"
    "destinationName (mergedWalk run) = destinationName (last run)"
    by (simp_all add: mergedWalk_def)
  have a: "pre = [] \<or> leg_type (last (mergeLoop [] pre)) \<noteq> Walk"
    using assms(5) mergeLoop_last_type [of "[]" pre] by auto
  have b: "post = [] \<or> leg_type (hd (mergeLoop [] post)) \<noteq> Walk"
    using assms(6) by (cases post) (auto simp only: mergeLoop_hd_type list.sel)
  from p(1) l t f a b show ?thesis by blast
qed

theorem walk_run_merged_witness:
  "\<exists>p w. parseJourneyToTripProposal sampleRuntime sampleJourney = Some p \<and>
         legs p = [w, busLeg ''C'' ''D'' 120000 300000 180] \<and>
         leg_type w = Walk \<and> durationSeconds w = Num 105 \<and>
         arrivalTime w = Num 120000 \<and> destinationName w = ustr ''C''"
proof -
  let ?run = "[walkLeg ''A'' ''B'' 0 60000 60, walkLeg ''B'' ''C'' 60000 120000 45]"
  let ?post = "[busLeg ''C'' ''D'' 120000 300000 180]"
  have h1: "journey_legs sampleJourney =
     Some [sampleLeg ''footpath'' ''A'' ''B'' ''1970-01-01T00:00:00Z''
             ''1970-01-01T00:01:00Z'' 60,
           sampleLeg ''footpath'' ''B'' ''C'' ''1970-01-01T00:01:00Z''
             ''1970-01-01T00:02:00Z'' 45,
           sampleLeg ''Buss'' ''C'' ''D'' ''1970-01-01T00:02:00Z''
             ''1970-01-01T00:05:00Z'' 180]"
    by (simp add: sampleJourney_def)
  have h3: "2 \<le> length ?run" by simp
  have h4: "\<forall>l \<in> set ?run. leg_type l = Walk" by (simp add: walkLeg_def)
  have h5: "([] :: TripLeg list) = [] \<or> leg_type (last []) \<noteq> Walk" by simp
  have h6: "?post = [] \<or> leg_type (hd ?post) \<noteq> Walk" by (simp add: busLeg_def)
  have s: "num_sum (map durationSeconds ?run) = Num 105" by (simp add: num_sum_def walkLeg_def)
  have e: "arrivalTime (last ?run) = Num 120000" "destinationName (last ?run) = ustr ''C''"
    by (simp_all add: walkLeg_def)
  have m: "mergeLoop [] ?post = ?post" "mergeLoop [] [] = ([] :: TripLeg list)" by simp_all
  show ?thesis
    using walk_run_merged [OF h1 sample_parsed h3 h4 h5 h6]
    unfolding s e m by auto
qed

text \<open>
  C7. The legs of every proposal that the journey normalizer returns are a non-empty
  list in which no two neighbours are both walks.
\<close>

theorem proposal_legs_invariant:
  assumes "parseJourneyToTripProposal rt journey = Some p"
  shows "legs p \<noteq> [] \<and>
         (\<forall>i. Suc i < length (legs p) \<longrightarrow>
              \<not> (leg_type (legs p ! i) = Walk \<and> leg_type (legs p ! Suc i) = Walk))"
proof -
  from parseJourney_Some [OF assms] obtain rawLegs where
    r: "List.map_filter (parseLegV2 rt) rawLegs \<noteq> []"
       "legs p = mergeLoop [] (List.map_filter (parseLegV2 rt) rawLegs)"
    by blast
  have "legs p \<noteq> []" using r by (simp add: mergeLoop_nonempty)
  moreover have "successively (\<lambda>a b. \<not> (leg_type a = Walk \<and> leg_type b = Walk)) (legs p)"
    unfolding r(2) by (rule mergeLoop_successively) simp
  ultimately show ?thesis using successively_nth by blast
qed

theorem proposal_legs_invariant_witness:
  "parseJourneyToTripProposal sampleRuntime sampleJourney = Some sampleProposal
   \<and> legs sampleProposal \<noteq> []
   \<and> \<not> (leg_type (legs sampleProposal ! 0) = Walk \<and>
        leg_type (legs sampleProposal ! Suc 0) = Walk)"
proof -
  have "Suc 0 < length (legs sampleProposal)" by (simp add: sampleProposal_def)
  then show ?thesis
    using proposal_legs_invariant [OF sample_proposal] sample_proposal by blast
qed

text \<open>
  C8. The walk leg that stands for a merged run keeps the departure time, origin name,
  type, line, direction and platform of the first leg of the run: merging updates the
  arrival time, the duration and the destination name only.
\<close>

theorem merged_walk_frame:
  assumes "journey_legs journey = Some rawLegs"
    and "List.map_filter (parseLegV2 rt) rawLegs = pre @ run @ post"
    and "2 \<le> length run" and "\<forall>l \<in> set run. leg_type l = Walk"
    and "pre = [] \<or> leg_type (last pre) \<noteq> Walk"
    and "post = [] \<or> leg_type (hd post) \<noteq> Walk"
  shows "\<exists>p w. parseJourneyToTripProposal rt journey = Some p \<and>
           legs p = mergeLoop [] pre @ [w] @ mergeLoop [] post \<and>
           departureTime w = departureTime (hd run) \<and>
           originName w = originName (hd run) \<and>
           leg_type w = leg_type (hd run) \<and>
           leg_line w = leg_line (hd run) \<and>
           direction w = direction (hd run) \<and>
           platform w = platform (hd run)"
proof -
  have ne: "run \<noteq> []" using assms(3) by auto
  then have "List.map_filter (parseLegV2 rt) rawLegs \<noteq> []" using assms(2) by simp
  from parseJourney_legs [OF assms(1) this] obtain p where
    p: "parseJourneyToTripProposal rt journey = Some p"
       "legs p = mergeLoop [] (pre @ run @ post)"
    using assms(2) by auto
  have l: "legs p = mergeLoop [] pre @ [mergedWalk run] @ mergeLoop [] post"
    using p(2) merge_run [OF ne assms(4,5,6)] by simp
  have f: "departureTime (mergedWalk run) = departureTime (hd run)"
    "originName (mergedWalk run) = originName (hd run)"
    "leg_type (mergedWalk run) = leg_type (hd run)"
    "leg_line (mergedWalk run) = leg_line (hd run)"
    "direction (mergedWalk run) = direction (hd run)"
    "platform (mergedWalk run) = platform (hd run)"
    by (simp_all add: mergedWalk_def)
  from p(1) l f show ?thesis by blast
qed

theorem merged_walk_frame_witness:
  "\<exists>p w. parseJourneyToTripProposal sampleRuntime sampleJourney = Some p \<and>
         legs p = [w, busLeg ''C'' ''D'' 120000 300000 180] \<and>
         departureTime w = Num 0 \<and> originName w = ustr ''A'' \<and> leg_type w = Walk \<and>
         leg_line w = None \<and> direction w = None \<and> platform w = None"
proof -
  let ?run = "[walkLeg ''A'' ''B'' 0 60000 60, walkLeg ''B'' ''C'' 60000 120000 45]"
  let ?post = "[busLeg ''C'' ''D'' 120000 300000 180]"
  have h3: "2 \<le> length ?run" by simp
  have h4: "\<forall>l \<in> set ?run. leg_type l = Walk" by (simp add: walkLeg_def)
  have h5: "([] :: TripLeg list) = [] \<or> leg_type (last []) \<noteq> Walk" by simp
  have h6: "?post = [] \<or> leg_type (hd ?post) \<noteq> Walk" by (simp add: busLeg_def)
  have e: "departureTime (hd ?run) = Num 0" "originName (hd ?run) = ustr ''A''"
    "leg_type (hd ?run) = Walk" "leg_line (hd ?run) = None" "direction (hd ?run) = None"
    "platform (hd ?run) = None"
    by (simp_all add: walkLeg_def)
  have m: "mergeLoop [] ?post = ?post" "mergeLoop [] [] = ([] :: TripLeg list)" by simp_all
  show ?thesis
    using merged_walk_frame [OF sample_journey_legs sample_parsed h3 h4 h5 h6]
    unfolding e m by auto
qed

section \<open>Properties of the transit-mode classifier\<close>

subsection \<open>Canonical decomposition\<close>

text \<open>
  The normalized text holds exactly the code points of the decompositions, the starters
  (combining class 0) in their order, and no mark before a mark of a smaller class.
\<close>

lemma canonicalOrder_Cons:
  "canonicalOrder rt (c # s) = reorderInsert rt c (canonicalOrder rt s)"
  by (simp add: canonicalOrder_def)

lemma count_reorderInsert:
  "count_list (reorderInsert rt c ds) x = count_list (c # ds) x"
  by (induction ds) auto

lemma count_canonicalOrder: "count_list (canonicalOrder rt s) x = count_list s x"
  by (induction s) (simp_all add: canonicalOrder_Cons count_reorderInsert, simp add: canonicalOrder_def)

lemma starters_reorderInsert:
  "filter (\<lambda>c. combiningClass rt c = 0) (reorderInsert rt c ds) =
   filter (\<lambda>c. combiningClass rt c = 0) (c # ds)"
  by (induction ds) auto

lemma starters_canonicalOrder:
  "filter (\<lambda>c. combiningClass rt c = 0) (canonicalOrder rt s) =
   filter (\<lambda>c. combiningClass rt c = 0) s"
proof (induction s)
  case Nil
  show ?case by (simp add: canonicalOrder_def)
next
  case (Cons c s)
  then show ?case by (simp add: canonicalOrder_Cons starters_reorderInsert)
qed

lemma hd_reorderInsert:
  "hd (reorderInsert rt c ds) = c \<or> (ds \<noteq> [] \<and> hd (reorderInsert rt c ds) = hd ds \<and>
     combiningClass rt (hd ds) \<noteq> 0 \<and> combiningClass rt (hd ds) < combiningClass rt c)"
  by (cases ds) auto

lemma ordered_reorderInsert:
  assumes "successively (\<lambda>a b. \<not> (combiningClass rt b \<noteq> 0 \<and>
                                   combiningClass rt b < combiningClass rt a)) ds"
  shows "successively (\<lambda>a b. \<not> (combiningClass rt b \<noteq> 0 \<and>
                                   combiningClass rt b < combiningClass rt a))
           (reorderInsert rt c ds)"
  using assms
proof (induction ds)
  case Nil
  then show ?case by simp
next
  case (Cons d ds)
  show ?case
  proof (cases "combiningClass rt d \<noteq> 0 \<and> combiningClass rt d < combiningClass rt c")
    case False
    then show ?thesis using Cons.prems by auto
  next
    case True
    have "successively (\<lambda>a b. \<not> (combiningClass rt b \<noteq> 0 \<and>
                                   combiningClass rt b < combiningClass rt a)) ds"
      using Cons.prems by (cases ds) auto
    then have s: "successively (\<lambda>a b. \<not> (combiningClass rt b \<noteq> 0 \<and>
                                   combiningClass rt b < combiningClass rt a))
           (reorderInsert rt c ds)"
      by (rule Cons.IH)
    have ne: "reorderInsert rt c ds \<noteq> []" by (cases ds) auto
    have "\<not> (combiningClass rt (hd (reorderInsert rt c ds)) \<noteq> 0 \<and>
             combiningClass rt (hd (reorderInsert rt c ds)) < combiningClass rt d)"
      using hd_reorderInsert [of rt c ds] True Cons.prems
      by (auto simp: successively_Cons)
    then show ?thesis using True s ne by (simp add: successively_Cons)
  qed
qed

lemma ordered_canonicalOrder:
  "successively (\<lambda>a b. \<not> (combiningClass rt b \<noteq> 0 \<and>
                            combiningClass rt b < combiningClass rt a))
     (canonicalOrder rt s)"
proof (induction s)
  case Nil
  show ?case by (simp add: canonicalOrder_def)
next
  case (Cons c s)
  show ?case unfolding canonicalOrder_Cons using Cons by (rule ordered_reorderInsert)
qed

lemma normalizeNFD_Nil: "normalizeNFD rt [] = []"
  by (simp add: normalizeNFD_def canonicalOrder_def)

subsection \<open>The classifier\<close>

lemma firstMatch_default:
  assumes "\<forall>row \<in> set table. \<forall>t \<in> set (fst row). \<not> str_includes upper t"
  shows "firstMatch table upper = Bus"
proof -
  have "find (\<lambda>row. list_ex (str_includes upper) (fst row)) table = None"
    using assms by (auto simp: find_None_iff list_ex_iff)
  then show ?thesis by (simp add: firstMatch_def)
qed

lemma kind_cases: "k \<in> {Walk, Metro, Train, Tram, Bus, Ship}"
  by (cases k) simp_all

lemma classify_expanded:
  "mapTransportTypeV2 rt s =
     firstMatch modeTable
       (concat (map (upperMapping rt)
          (filter (\<lambda>c. \<not> (768 \<le> c \<and> c \<le> 879)) (normalizeNFD rt s))))"
  by (simp add: mapTransportTypeV2_def Let_def firstMatch_def modeTable_def
                toUpperCase_def stripMarks_def)

text \<open>
  Product names as the journey planner sends them: the Swedish words for commuter train,
  train, tram and boat, each written with the letter a with a ring above (code point 229).
\<close>

lemma sample_pipeline:
  "firstMatch modeTable (concat (map (upperMapping sampleRuntime)
     (filter (\<lambda>c. \<not> (768 \<le> c \<and> c \<le> 879))
        (normalizeNFD sampleRuntime (ustr ''walk to metro''))))) = Walk"
  "firstMatch modeTable (concat (map (upperMapping sampleRuntime)
     (filter (\<lambda>c. \<not> (768 \<le> c \<and> c \<le> 879))
        (normalizeNFD sampleRuntime (ustr ''tunnelbana''))))) = Metro"
  "firstMatch modeTable (concat (map (upperMapping sampleRuntime)
     (filter (\<lambda>c. \<not> (768 \<le> c \<and> c \<le> 879))
        (normalizeNFD sampleRuntime
           [80, 101, 110, 100, 101, 108, 116, 229, 103])))) = Train"
  "firstMatch modeTable (concat (map (upperMapping sampleRuntime)
     (filter (\<lambda>c. \<not> (768 \<le> c \<and> c \<le> 879))
        (normalizeNFD sampleRuntime [84, 229, 103])))) = Train"
  "firstMatch modeTable (concat (map (upperMapping sampleRuntime)
     (filter (\<lambda>c. \<not> (768 \<le> c \<and> c \<le> 879))
        (normalizeNFD sampleRuntime
           [83, 112, 229, 114, 118, 97, 103, 110])))) = Tram"
  "firstMatch modeTable (concat (map (upperMapping sampleRuntime)
     (filter (\<lambda>c. \<not> (768 \<le> c \<and> c \<le> 879))
        (normalizeNFD sampleRuntime [66, 229, 116])))) = Ship"
  "firstMatch modeTable (concat (map (upperMapping sampleRuntime)
     (filter (\<lambda>c. \<not> (768 \<le> c \<and> c \<le> 879))
        (normalizeNFD sampleRuntime (ustr ''Buss''))))) = Bus"
  by code_simp+

lemma sample_upper_taxi:
  "concat (map (upperMapping sampleRuntime)
     (filter (\<lambda>c. \<not> (768 \<le> c \<and> c \<le> 879))
        (normalizeNFD sampleRuntime (ustr ''Taxi'')))) = ustr ''TAXI''"
  by code_simp

lemma sample_no_token:
  "list_all (\<lambda>row. list_all (\<lambda>t. \<not> str_includes (ustr ''TAXI'') t) (fst row)) modeTable"
  by code_simp

text \<open>
  C5. The classifier returns, for every string, one of the six kinds: the kind of the
  first row of the priority table (walk, metro, train, tram, ship, bus) one of whose
  tokens occurs in the text that results from the input by canonical decomposition
  (the code points of the decompositions, starters in their order, marks in canonical
  order), removal of the combining marks U+0300 to U+036F and the upper-case mapping of
  every code point; \<open>bus\<close> when no token occurs, and \<open>bus\<close> for the empty string.
\<close>

theorem classifier_total_priority:
  "mapTransportTypeV2 rt s =
     firstMatch modeTable
       (concat (map (upperMapping rt)
          (filter (\<lambda>c. \<not> (768 \<le> c \<and> c \<le> 879)) (normalizeNFD rt s))))
   \<and> (\<forall>c. count_list (normalizeNFD rt s) c = count_list (concat (map (decompose rt) s)) c)
   \<and> filter (\<lambda>c. combiningClass rt c = 0) (normalizeNFD rt s) =
       filter (\<lambda>c. combiningClass rt c = 0) (concat (map (decompose rt) s))
   \<and> successively (\<lambda>a b. \<not> (combiningClass rt b \<noteq> 0 \<and>
                               combiningClass rt b < combiningClass rt a))
       (normalizeNFD rt s)
   \<and> mapTransportTypeV2 rt s \<in> {Walk, Metro, Train, Tram, Bus, Ship}
   \<and> ((\<forall>row \<in> set modeTable. \<forall>t \<in> set (fst row).
          \<not> str_includes
               (concat (map (upperMapping rt)
                  (filter (\<lambda>c. \<not> (768 \<le> c \<and> c \<le> 879)) (normalizeNFD rt s)))) t)
        \<longrightarrow> mapTransportTypeV2 rt s = Bus)
   \<and> mapTransportTypeV2 rt [] = Bus"
proof -
  have "mapTransportTypeV2 rt [] = firstMatch modeTable []"
    by (simp add: classify_expanded normalizeNFD_Nil)
  also have "\<dots> = Bus"
    by (rule firstMatch_default) (simp add: modeTable_def str_includes_def ustr_def)
  finally have e: "mapTransportTypeV2 rt [] = Bus" .
  have c: "\<forall>c. count_list (normalizeNFD rt s) c = count_list (concat (map (decompose rt) s)) c"
    by (simp add: normalizeNFD_def count_canonicalOrder)
  have f: "filter (\<lambda>c. combiningClass rt c = 0) (normalizeNFD rt s) =
       filter (\<lambda>c. combiningClass rt c = 0) (concat (map (decompose rt) s))"
    unfolding normalizeNFD_def by (rule starters_canonicalOrder)
  have o: "successively (\<lambda>a b. \<not> (combiningClass rt b \<noteq> 0 \<and>
                               combiningClass rt b < combiningClass rt a))
       (normalizeNFD rt s)"
    unfolding normalizeNFD_def by (rule ordered_canonicalOrder)
  have d: "(\<forall>row \<in> set modeTable. \<forall>t \<in> set (fst row).
          \<not> str_includes
               (concat (map (upperMapping rt)
                  (filter (\<lambda>c. \<not> (768 \<le> c \<and> c \<le> 879)) (normalizeNFD rt s)))) t)
        \<longrightarrow> mapTransportTypeV2 rt s = Bus"
    using firstMatch_default [of modeTable] by (simp only: classify_expanded) blast
  from classify_expanded [of rt s] c f o kind_cases [of "mapTransportTypeV2 rt s"] d e
  show ?thesis by blast
qed

theorem classifier_total_priority_witness:
  "mapTransportTypeV2 sampleRuntime (ustr ''walk to metro'') = Walk
   \<and> mapTransportTypeV2 sampleRuntime (ustr ''tunnelbana'') = Metro
   \<and> mapTransportTypeV2 sampleRuntime [80, 101, 110, 100, 101, 108, 116, 229, 103] = Train
   \<and> mapTransportTypeV2 sampleRuntime [84, 229, 103] = Train
   \<and> mapTransportTypeV2 sampleRuntime [83, 112, 229, 114, 118, 97, 103, 110] = Tram
   \<and> mapTransportTypeV2 sampleRuntime [66, 229, 116] = Ship
   \<and> mapTransportTypeV2 sampleRuntime (ustr ''Buss'') = Bus
   \<and> mapTransportTypeV2 sampleRuntime (ustr ''Taxi'') = Bus
   \<and> list_all (\<lambda>row. list_all (\<lambda>t. \<not> str_includes (ustr ''TAXI'') t) (fst row)) modeTable"
proof -
  have 1: "mapTransportTypeV2 sampleRuntime (ustr ''walk to metro'') = Walk"
    using classifier_total_priority [of sampleRuntime "ustr ''walk to metro''", THEN conjunct1]
      sample_pipeline(1) by (rule trans)
  have 2: "mapTransportTypeV2 sampleRuntime (ustr ''tunnelbana'') = Metro"
    using classifier_total_priority [of sampleRuntime "ustr ''tunnelbana''", THEN conjunct1]
      sample_pipeline(2) by (rule trans)
  have 3: "mapTransportTypeV2 sampleRuntime [80, 101, 110, 100, 101, 108, 116, 229, 103] =
            Train"
    using classifier_total_priority
            [of sampleRuntime "[80, 101, 110, 100, 101, 108, 116, 229, 103]", THEN conjunct1]
      sample_pipeline(3) by (rule trans)
  have 4: "mapTransportTypeV2 sampleRuntime [84, 229, 103] = Train"
    using classifier_total_priority [of sampleRuntime "[84, 229, 103]", THEN conjunct1]
      sample_pipeline(4) by (rule trans)
  have 5: "mapTransportTypeV2 sampleRuntime [83, 112, 229, 114, 118, 97, 103, 110] = Tram"
    using classifier_total_priority
            [of sampleRuntime "[83, 112, 229, 114, 118, 97, 103, 110]", THEN conjunct1]
      sample_pipeline(5) by (rule trans)
  have 6: "mapTransportTypeV2 sampleRuntime [66, 229, 116] = Ship"
    using classifier_total_priority [of sampleRuntime "[66, 229, 116]", THEN conjunct1]
      sample_pipeline(6) by (rule trans)
  have 7: "mapTransportTypeV2 sampleRuntime (ustr ''Buss'') = Bus"
    using classifier_total_priority [of sampleRuntime "ustr ''Buss''", THEN conjunct1]
      sample_pipeline(7) by (rule trans)
  have "\<forall>row \<in> set modeTable. \<forall>t \<in> set (fst row).
          \<not> str_includes
               (concat (map (upperMapping sampleRuntime)
                  (filter (\<lambda>c. \<not> (768 \<le> c \<and> c \<le> 879))
                     (normalizeNFD sampleRuntime (ustr ''Taxi''))))) t"
    using sample_no_token unfolding sample_upper_taxi by (simp add: list_all_iff)
  then have 8: "mapTransportTypeV2 sampleRuntime (ustr ''Taxi'') = Bus"
    using classifier_total_priority [of sampleRuntime "ustr ''Taxi''"] by blast
  from 1 2 3 4 5 6 7 8 sample_no_token show ?thesis by blast
qed

section \<open>Properties of the stop resolver\<close>

lemma find_filter_subset:
  assumes "\<And>x. P x \<Longrightarrow> Q x"
  shows "find P (filter Q xs) = find P xs"
  using assms by (induction xs) auto

lemma find_hd_filter: "find Q xs = (case filter Q xs of [] \<Rightarrow> None | y # _ \<Rightarrow> Some y)"
  by (induction xs) auto

lemma trim_Nil [simp]: "trim [] = []"
  by (simp add: trim_def)

lemma sample_trims:
  "trim (ustr ''4242'') = ustr ''4242''"
  "trim (ustr '' 9117 '') = ustr ''9117''"
  "trim (ustr ''NORRA'') = ustr ''NORRA''"
  "trim (ustr ''xyz'') = ustr ''xyz''"
  "trim (ustr ''  Odenplan '') = ustr ''Odenplan''"
  "trim (ustr '' Slussen'') = ustr ''Slussen''"
  "trim (ustr ''   '') = []"
  by (simp_all add: trim_def isWhiteSpace_def ustr_def)

lemma sample_queries:
  "resolveByQuery sampleRuntime sampleSites (ustr ''4242'') =
             Some (sampleSite ''4242'' ''4242'')"
  "resolveByQuery sampleRuntime sampleSites (ustr ''9117'') =
             Some (sampleSite ''9117'' ''Odenplan'')"
  "resolveByQuery sampleRuntime sampleSites (ustr ''NORRA'') =
             Some (sampleSite ''5000'' ''Norra Odenplan'')"
  "resolveByQuery sampleRuntime sampleSites (ustr ''xyz'') = None"
  by code_simp+

text \<open>
  C6. As stated, every non-numeric query is matched against the site names and resolves
  to a site whenever some name contains it, and only a purely numeric query is looked up
  as an identifier. Every name contains the empty string, yet the empty stop input
  resolves to none: the guard on a missing stop input returns before any matching. And
  the stop input \<open>" 9001"\<close>, which is not purely numeric and which no site name
  contains, resolves to a placeholder site: the input is trimmed before the numeric test.
\<close>

theorem empty_or_padded_stop_input:
  "\<not> isDigits []
   \<and> resolveByQuery sampleRuntime [sampleSite ''9117'' ''Odenplan''] [] =
       Some (sampleSite ''9117'' ''Odenplan'')
   \<and> resolveSite sampleRuntime unusedNear [sampleSite ''9117'' ''Odenplan''] (Some []) None =
       Inr None
   \<and> \<not> isDigits (ustr '' 9001'')
   \<and> resolveByQuery sampleRuntime [sampleSite ''9117'' ''Odenplan''] (ustr '' 9001'') = None
   \<and> resolveSite sampleRuntime unusedNear [sampleSite ''9117'' ''Odenplan'']
         (Some (ustr '' 9001'')) None =
       Inr (Some (sampleSite ''9001'' ''9001''))"
proof -
  have t: "trim (ustr '' 9001'') = ustr ''9001''"
    by (simp add: trim_def isWhiteSpace_def ustr_def)
  have a: "\<not> isDigits []
     \<and> resolveByQuery sampleRuntime [sampleSite ''9117'' ''Odenplan''] [] =
         Some (sampleSite ''9117'' ''Odenplan'')
     \<and> resolveSite sampleRuntime unusedNear [sampleSite ''9117'' ''Odenplan''] (Some [])
         None = Inr None"
    by code_simp
  have b: "\<not> isDigits (ustr '' 9001'')
     \<and> resolveByQuery sampleRuntime [sampleSite ''9117'' ''Odenplan''] (ustr '' 9001'') = None"
    by code_simp
  have c: "resolveSite sampleRuntime unusedNear [sampleSite ''9117'' ''Odenplan'']
         (Some (ustr '' 9001'')) None =
       Inr (Some (sampleSite ''9001'' ''9001''))"
    by (simp add: resolveSite_def t Let_def) code_simp
  from a b c show ?thesis by blast
qed

text \<open>
  C6, amended. Without a \<open>--near\<close> input and with a non-empty stop input, the resolver
  returns what the description says for the query that is the stop input trimmed of
  surrounding white space: for a purely numeric query the first site with that
  identifier, else a placeholder with the query as identifier and name; for any other
  query the first site whose name equals it without regard to case, else the first whose
  name starts with it, else the first whose name contains it, else none. A missing or
  empty stop input resolves to none.
\<close>

theorem resolveSite_stop:
  assumes "\<not> truthy nearInput"
  shows "resolveSite rt near sites stopInput nearInput =
         Inr (case stopInput of
                None \<Rightarrow> None
              | Some s \<Rightarrow> if s = [] then None else resolveByQuery rt sites (trim s))"
proof (cases "truthy stopInput")
  case False
  then show ?thesis using assms
    by (cases stopInput) (auto simp: resolveSite_def)
next
  case True
  then obtain s where s: "stopInput = Some s" "s \<noteq> []" by (cases stopInput) auto
  let ?q = "trim s"
  let ?Q = "\<lambda>site. str_includes (toLowerCase rt (site_name site)) (toLowerCase rt ?q)"
  let ?E = "\<lambda>site. toLowerCase rt (site_name site) = toLowerCase rt ?q"
  let ?P = "\<lambda>site. startsWith (toLowerCase rt (site_name site)) (toLowerCase rt ?q)"
  have fe: "find ?E (filter ?Q sites) = find ?E sites"
    by (rule find_filter_subset) (simp add: str_includes_def)
  have fp: "find ?P (filter ?Q sites) = find ?P sites"
    by (rule find_filter_subset)
       (auto simp: str_includes_def startsWith_def intro: prefix_imp_sublist)
  have fq: "find ?Q sites = (case filter ?Q sites of [] \<Rightarrow> None | y # _ \<Rightarrow> Some y)"
    by (rule find_hd_filter)
  show ?thesis
  proof (cases "isDigits ?q")
    case True
    then show ?thesis using assms s
      by (auto simp: resolveSite_def resolveByQuery_def Let_def split: option.splits)
  next
    case nd: False
    show ?thesis
    proof (cases "filter ?Q sites = []")
      case True
      then have "find ?Q sites = None" using fq by simp
      moreover have "find ?E sites = None" using fe True by simp
      moreover have "find ?P sites = None" using fp True by simp
      ultimately show ?thesis using assms s nd True
        by (simp add: resolveSite_def resolveByQuery_def Let_def str_includes_def
                      startsWith_def)
    next
      case False
      then have "find ?Q sites = Some (hd (filter ?Q sites))"
        using fq by (cases "filter ?Q sites") auto
      then show ?thesis using assms s nd False fe fp
        by (simp add: resolveSite_def resolveByQuery_def Let_def str_includes_def
                      startsWith_def split: option.splits)
    qed
  qed
qed

theorem resolveSite_stop_witness:
  "resolveSite sampleRuntime unusedNear sampleSites (Some (ustr ''4242'')) None =
     Inr (Some (sampleSite ''4242'' ''4242''))
   \<and> resolveSite sampleRuntime unusedNear sampleSites (Some (ustr '' 9117 '')) None =
     Inr (Some (sampleSite ''9117'' ''Odenplan''))
   \<and> resolveSite sampleRuntime unusedNear sampleSites (Some (ustr ''NORRA'')) None =
     Inr (Some (sampleSite ''5000'' ''Norra Odenplan''))
   \<and> resolveSite sampleRuntime unusedNear sampleSites (Some (ustr ''xyz'')) None = Inr None"
proof -
  have n: "\<not> truthy None" by simp
  have ne: "ustr ''4242'' \<noteq> []" "ustr '' 9117 '' \<noteq> []" "ustr ''NORRA'' \<noteq> []"
    "ustr ''xyz'' \<noteq> []"
    by (simp_all add: ustr_def)
  show ?thesis
    using resolveSite_stop [OF n, of sampleRuntime unusedNear sampleSites]
    by (simp add: sample_trims sample_queries ne)
qed

section \<open>Properties of the configuration\<close>










end
